theory Spec2Isabelle
  imports Main
begin

section \<open>The cfn module: status vocabularies\<close>

text \<open>
  The module \<^verbatim>\<open>node_modules/cfn/index.js\<close> drives CloudFormation stack operations and
  polls the stack's event log until the operation is over. Its three status tables are the
  constant arrays \<^verbatim>\<open>success\<close>, \<^verbatim>\<open>failed\<close> and the object \<^verbatim>\<open>colorMap\<close>.

  Modelling conventions used throughout:
  \<^item> strings are ASCII \<open>char list\<close>s;
  \<^item> the object of caller parameters is modelled with its own properties and its
    prototype, so that reads and writes of \<^verbatim>\<open>params[k]\<close> go through the prototype chain;
    the tables \<^verbatim>\<open>colorMap\<close> and \<^verbatim>\<open>displayedEvents\<close> are keyed by statuses and by event
    ids, which the service generates and which are no property names of
    \<^verbatim>\<open>Object.prototype\<close>;
  \<^item> a rejected promise carries the string that \<^verbatim>\<open>String(err)\<close> yields, which is what
    every \<^verbatim>\<open>RegExp.test(err)\<close> of the module inspects; error values are \<^verbatim>\<open>Error\<close>
    objects and hence truthy;
  \<^item> \<^verbatim>\<open>moment(x).valueOf()\<close> of a date is its number of milliseconds, an \<open>int\<close>.
\<close>

definition success :: "string list" where
  "success = [''CREATE_COMPLETE'', ''DELETE_COMPLETE'', ''UPDATE_COMPLETE'']"

definition failed :: "string list" where
  "failed =
    [''ROLLBACK_FAILED'',
     ''ROLLBACK_IN_PROGRESS'',
     ''ROLLBACK_COMPLETE'',
     ''UPDATE_ROLLBACK_IN_PROGRESS'',
     ''UPDATE_ROLLBACK_COMPLETE'',
     ''UPDATE_FAILED'',
     ''DELETE_FAILED'']"

definition colorMap :: "(string \<times> string) list" where
  "colorMap =
    [(''CREATE_IN_PROGRESS'', ''gray''),
     (''CREATE_COMPLETE'', ''green''),
     (''CREATE_FAILED'', ''red''),
     (''DELETE_IN_PROGRESS'', ''gray''),
     (''DELETE_COMPLETE'', ''green''),
     (''DELETE_FAILED'', ''red''),
     (''ROLLBACK_FAILED'', ''red''),
     (''ROLLBACK_IN_PROGRESS'', ''yellow''),
     (''ROLLBACK_COMPLETE'', ''red''),
     (''UPDATE_IN_PROGRESS'', ''gray''),
     (''UPDATE_COMPLETE'', ''green''),
     (''UPDATE_COMPLETE_CLEANUP_IN_PROGRESS'', ''green''),
     (''UPDATE_ROLLBACK_IN_PROGRESS'', ''yellow''),
     (''UPDATE_ROLLBACK_COMPLETE_CLEANUP_IN_PROGRESS'', ''yellow''),
     (''UPDATE_ROLLBACK_FAILED'', ''red''),
     (''UPDATE_ROLLBACK_COMPLETE'', ''red''),
     (''UPDATE_FAILED'', ''red'')]"

text \<open>\<^verbatim>\<open>_.includes(array, value)\<close> on an array of strings.\<close>

definition lodash_includes :: "'a list \<Rightarrow> 'a \<Rightarrow> bool" where
  "lodash_includes xs x = (x \<in> set xs)"

text \<open>
  The two membership tests that \<^verbatim>\<open>_processEvents\<close> applies to the status of an event,
  packaged as the three-way classification of a status string. The tables are disjoint,
  so the order of the tests does not matter.
\<close>

datatype verdict = Pending | Success | Failure

definition classify :: "string \<Rightarrow> verdict" where
  "classify status =
     (if lodash_includes failed status then Failure
      else if lodash_includes success status then Success
      else Pending)"

section \<open>Events and the poller of \<^verbatim>\<open>checkStack\<close>\<close>

record event =
  EventId :: string
  Timestamp :: int
  ResourceType :: string
  LogicalResourceId :: string
  ResourceStatus :: string
  ResourceStatusReason :: "string option"

datatype action = Create | Update | Delete

text \<open>\<^verbatim>\<open>action.toUpperCase()\<close> on the three action names.\<close>

fun action_upper :: "action \<Rightarrow> string" where
  "action_upper Create = ''CREATE''"
| "action_upper Update = ''UPDATE''"
| "action_upper Delete = ''DELETE''"

definition logPrefix :: "action \<Rightarrow> string \<Rightarrow> string" where
  "logPrefix act name = name @ '' '' @ action_upper act"

text \<open>
  The promise returned by \<^verbatim>\<open>checkStack\<close> is pending, resolved, or rejected with an
  \<^verbatim>\<open>Error\<close> whose message is kept. The closure state of \<^verbatim>\<open>checkStack\<close> is the object
  \<^verbatim>\<open>displayedEvents\<close> (used as a set of event ids); \<open>logged\<close> lists the events handed to
  \<^verbatim>\<open>log\<close>, in order.
\<close>

datatype outcome = Running | Succeeded | Failed string

record poller =
  displayedEvents :: "string set"
  logged :: "event list"
  outcome :: outcome

definition new_poller :: poller where
  "new_poller = \<lparr>displayedEvents = {}, logged = [], outcome = Running\<rparr>"

text \<open>\<^verbatim>\<open>_success\<close> and \<^verbatim>\<open>_failure\<close>: a promise settles once, later calls change nothing.\<close>

definition do_success :: "poller \<Rightarrow> poller" where
  "do_success p = (if outcome p = Running then p\<lparr>outcome := Succeeded\<rparr> else p)"

definition fullMsg :: "action \<Rightarrow> string \<Rightarrow> string option \<Rightarrow> string" where
  "fullMsg act name msg =
     logPrefix act name @ '' Failed'' @
       (case msg of None \<Rightarrow> [] | Some m \<Rightarrow> (if m = [] then [] else '': '' @ m))"

definition do_failure :: "action \<Rightarrow> string \<Rightarrow> string option \<Rightarrow> poller \<Rightarrow> poller" where
  "do_failure act name msg p =
     (if outcome p = Running then p\<lparr>outcome := Failed (fullMsg act name msg)\<rparr> else p)"

text \<open>
  The logging line evaluates \<^verbatim>\<open>chalk[colorMap[event.ResourceStatus]](...)\<close>. For a status
  that is no key of \<^verbatim>\<open>colorMap\<close> the looked-up colour is \<^verbatim>\<open>undefined\<close>, \<^verbatim>\<open>chalk[undefined]\<close>
  is no function, and the call throws a \<^verbatim>\<open>TypeError\<close> (text as printed by V8).
\<close>

definition chalk_TypeError :: string where
  "chalk_TypeError = ''TypeError: chalk[colorMap[event.ResourceStatus]] is not a function''"

text \<open>
  The \<^verbatim>\<open>_.forEach\<close> of \<^verbatim>\<open>_processEvents\<close>: every event is marked as displayed, and logged
  when it is not older than \<^verbatim>\<open>startedAt\<close>. A throw leaves the marks made so far in place.
\<close>

fun forEach_display :: "int \<Rightarrow> event list \<Rightarrow> poller \<Rightarrow> poller \<times> string option" where
  "forEach_display startedAt [] p = (p, None)"
| "forEach_display startedAt (e # es) p =
     (let p1 = p\<lparr>displayedEvents := insert (EventId e) (displayedEvents p)\<rparr> in
      if Timestamp e \<ge> startedAt then
        (if ResourceStatus e \<in> fst ` set colorMap
         then forEach_display startedAt es (p1\<lparr>logged := logged p1 @ [e]\<rparr>)
         else (p1, Some chalk_TypeError))
      else forEach_display startedAt es p1)"

text \<open>
  \<^verbatim>\<open>_processEvents\<close>: stable sort by timestamp, display, then decide on the LAST event of
  the sorted batch only. With an empty batch \<^verbatim>\<open>lastEvent\<close> is \<^verbatim>\<open>{}\<close>, whose resource type is
  \<^verbatim>\<open>undefined\<close>, so nothing is decided. The second component is the exception thrown, if any.
\<close>

definition processEvents ::
  "action \<Rightarrow> string \<Rightarrow> int \<Rightarrow> event list \<Rightarrow> poller \<Rightarrow> poller \<times> string option" where
  "processEvents act name startedAt events0 p =
     (let events = sort_key Timestamp events0 in
      case forEach_display startedAt events p of
        (p1, Some err) \<Rightarrow> (p1, Some err)
      | (p1, None) \<Rightarrow>
          (if events = [] then (p1, None)
           else
             let lastEvent = last events;
                 timestamp = Timestamp lastEvent;
                 resourceType = ResourceType lastEvent;
                 status = ResourceStatus lastEvent;
                 statusReason = ResourceStatusReason lastEvent
             in
               if resourceType = ''AWS::CloudFormation::Stack'' \<and> LogicalResourceId lastEvent = name then
                 if lodash_includes failed status \<and> timestamp \<ge> startedAt then
                   (do_failure act name statusReason p1, None)
                 else if lodash_includes success status
                         \<or> (lodash_includes failed status \<and> timestamp < startedAt) then
                   (do_success p1, None)
                 else (p1, None)
               else (p1, None)))"

text \<open>
  The guard of the decision: the event is the stack's own, not one of a resource or of a
  nested stack.
\<close>

definition isAuthoritative :: "event \<Rightarrow> string \<Rightarrow> bool" where
  "isAuthoritative e name =
     (ResourceType e = ''AWS::CloudFormation::Stack'' \<and> LogicalResourceId e = name)"

text \<open>
  Every event of the batch that will be logged carries a status of the colour table, so
  that the logging line does not throw.
\<close>

definition known_statuses :: "int \<Rightarrow> event list \<Rightarrow> bool" where
  "known_statuses startedAt events =
     list_all (\<lambda>e. startedAt \<le> Timestamp e \<longrightarrow> ResourceStatus e \<in> fst ` set colorMap) events"

section \<open>Regular expressions of the module\<close>

text \<open>
  The module tests error texts against three regular expressions. They use literals,
  \<^verbatim>\<open>\s\<close>, \<^verbatim>\<open>.\<close>, and the postfix operators \<^verbatim>\<open>+\<close> and \<^verbatim>\<open>?\<close> on single atoms only, so
  a regular expression is a list of pieces. \<^verbatim>\<open>RegExp.test\<close> searches for a match at
  any position; only whether one exists matters, so greediness plays no role.
\<close>

datatype atom = Lit char | Dot | WS

datatype piece = One atom | OneOrMore atom | ZeroOrOne atom

definition is_space :: "char \<Rightarrow> bool" where
  "is_space c = (c \<in> set [CHR 0x09, CHR 0x0A, CHR 0x0B, CHR 0x0C, CHR 0x0D, CHR 0x20])"

fun atom_ok :: "atom \<Rightarrow> char \<Rightarrow> bool" where
  "atom_ok (Lit d) c = (c = d)"
| "atom_ok Dot c = (c \<noteq> CHR 0x0A \<and> c \<noteq> CHR 0x0D)"
| "atom_ok WS c = is_space c"

fun match_here :: "piece list \<Rightarrow> string \<Rightarrow> bool" where
  "match_here [] s = True"
| "match_here (One a # ps) [] = False"
| "match_here (One a # ps) (c # cs) = (if atom_ok a c then match_here ps cs else False)"
| "match_here (ZeroOrOne a # ps) [] = match_here ps []"
| "match_here (ZeroOrOne a # ps) (c # cs) =
     (if atom_ok a c then (if match_here ps cs then True else match_here ps (c # cs))
      else match_here ps (c # cs))"
| "match_here (OneOrMore a # ps) [] = False"
| "match_here (OneOrMore a # ps) (c # cs) =
     (if atom_ok a c
      then (if match_here (OneOrMore a # ps) cs then True else match_here ps cs)
      else False)"

fun rx_test :: "piece list \<Rightarrow> string \<Rightarrow> bool" where
  "rx_test ps [] = match_here ps []"
| "rx_test ps (c # cs) = (if match_here ps (c # cs) then True else rx_test ps cs)"

definition lit :: "string \<Rightarrow> piece list" where
  "lit s = map (\<lambda>c. One (Lit c)) s"

text \<open>\<^verbatim>\<open>/ValidationError:\s+Stack\s+\[?.+]?\s+does not exist/\<close>\<close>

definition notExists :: "piece list" where
  "notExists =
     lit ''ValidationError:'' @ [OneOrMore WS] @ lit ''Stack'' @
     [OneOrMore WS, ZeroOrOne (Lit CHR ''[''), OneOrMore Dot, ZeroOrOne (Lit CHR '']''),
      OneOrMore WS] @ lit ''does not exist''"

text \<open>\<^verbatim>\<open>/Throttling:\s+Rate\s+exceeded/\<close>\<close>

definition throttling :: "piece list" where
  "throttling =
     lit ''Throttling:'' @ [OneOrMore WS] @ lit ''Rate'' @ [OneOrMore WS] @ lit ''exceeded''"

text \<open>\<^verbatim>\<open>/No updates are to be performed/\<close>\<close>

definition noUpdates :: "piece list" where
  "noUpdates = lit ''No updates are to be performed''"

section \<open>Control-plane data\<close>

text \<open>
  The values that a caller supplies for parameters and tags, and the default values of a
  template, are primitives. Reading a property of an object can also yield a built-in
  object or function that the object inherits from \<^verbatim>\<open>Object.prototype\<close>; such a value is
  kept by the name of the property and is truthy.
\<close>

datatype js_prim = JUndefined | JNull | JBool bool | JNum int | JStr string

fun truthy_prim :: "js_prim \<Rightarrow> bool" where
  "truthy_prim JUndefined = False"
| "truthy_prim JNull = False"
| "truthy_prim (JBool b) = b"
| "truthy_prim (JNum n) = (n \<noteq> 0)"
| "truthy_prim (JStr s) = (s \<noteq> [])"

datatype js_value = Prim js_prim | Builtin string

fun truthy :: "js_value \<Rightarrow> bool" where
  "truthy (Prim v) = truthy_prim v"
| "truthy (Builtin b) = True"

text \<open>The operator \<^verbatim>\<open>a || b\<close>.\<close>

definition js_or :: "js_value \<Rightarrow> js_value \<Rightarrow> js_value" where
  "js_or a b = (if truthy a then a else b)"

text \<open>A page token is used when it is truthy: present and not the empty string.\<close>

fun truthy_token :: "string option \<Rightarrow> bool" where
  "truthy_token None = False"
| "truthy_token (Some t) = (t \<noteq> [])"

record parameter_key =
  ParameterKey :: string

record declared_parameter = parameter_key +
  DefaultValue :: js_prim

record parameter = parameter_key +
  ParameterValue :: js_value

datatype template_object = TemplateBody string | TemplateURL string

record tag =
  Key :: string
  Value :: js_prim

record stack_name =
  StackName :: string

record cf_parms = stack_name +
  Capabilities :: "string list"
  Parameters :: "parameter list"
  Tags :: "tag list"
  Template :: template_object

record stack_summary = stack_name +
  CreationTime :: int

record next_token =
  NextToken :: "string option"

record events_page = next_token +
  StackEvents :: "event list"

record stacks_page = next_token +
  StackSummaries :: "stack_summary list"

text \<open>The calls issued to the CloudFormation client, in the order they are made.\<close>

datatype cf_call =
    GetTemplateSummary template_object
  | UpdateStack cf_parms
  | CreateStack cf_parms
  | DeleteStack string
  | DescribeStackEvents string "string option"
  | ListStacks "string option"

section \<open>Paging through the event log\<close>

text \<open>
  \<^verbatim>\<open>allRelevantEventsLoaded\<close>: some event of the page is older than \<^verbatim>\<open>startedAt\<close>.
\<close>

definition allRelevantEventsLoaded :: "int \<Rightarrow> event list \<Rightarrow> bool" where
  "allRelevantEventsLoaded startedAt events = list_ex (\<lambda>event. Timestamp event < startedAt) events"

text \<open>
  \<^verbatim>\<open>getStackEvents\<close>, the recursive page fetch inside \<^verbatim>\<open>getAllStackEvents\<close>. The client
  \<open>describeStackEvents\<close> answers a request (stack name, page token) with an error text or
  a page. The closure variables \<^verbatim>\<open>next\<close> and \<^verbatim>\<open>allEvents\<close> are arguments; \<open>reqs\<close> records
  the requests made. The chain of tokens may never end: the result \<open>None\<close> stands for a
  fetch that does not return.
\<close>

partial_function (option) getStackEvents ::
  "(string \<Rightarrow> string option \<Rightarrow> string + events_page) \<Rightarrow> string \<Rightarrow> int \<Rightarrow> string option \<Rightarrow>
   event list \<Rightarrow> cf_call list \<Rightarrow> (cf_call list \<times> (string + event list)) option" where
  "getStackEvents describeStackEvents stackName startedAt next allEvents reqs =
     (case describeStackEvents stackName next of
        Inl err \<Rightarrow> Some (reqs @ [DescribeStackEvents stackName next], Inl err)
      | Inr data \<Rightarrow>
          (if truthy_token (NextToken data) \<and> \<not> allRelevantEventsLoaded startedAt (StackEvents data)
           then getStackEvents describeStackEvents stackName startedAt (NextToken data)
                  (allEvents @ StackEvents data) (reqs @ [DescribeStackEvents stackName next])
           else Some (reqs @ [DescribeStackEvents stackName next], Inr (allEvents @ StackEvents data))))"

definition getAllStackEvents ::
  "(string \<Rightarrow> string option \<Rightarrow> string + events_page) \<Rightarrow> string \<Rightarrow> int \<Rightarrow>
   (cf_call list \<times> (string + event list)) option" where
  "getAllStackEvents describeStackEvents stackName startedAt =
     getStackEvents describeStackEvents stackName startedAt None [] []"

section \<open>One tick and the polling loop\<close>

text \<open>
  The \<^verbatim>\<open>catch\<close> handler of \<^verbatim>\<open>outputNewStackEvents\<close>. \<open>events\<close> is the closure array of
  the tick: empty when the fetch itself failed. An exception thrown by the nested
  \<^verbatim>\<open>_processEvents\<close> is lost with the rejected, unobserved promise of the tick.
\<close>

definition catch_handler ::
  "action \<Rightarrow> string \<Rightarrow> int \<Rightarrow> string \<Rightarrow> event list \<Rightarrow> poller \<Rightarrow> poller" where
  "catch_handler act name startedAt err events p =
     (if rx_test notExists err then do_success p
      else if rx_test throttling err then fst (processEvents act name startedAt events p)
      else do_failure act name (Some err) p)"

text \<open>
  \<^verbatim>\<open>outputNewStackEvents\<close>, one completed tick: the requests made, the new events handed
  to \<^verbatim>\<open>_processEvents\<close>, and the poller afterwards. The flag \<^verbatim>\<open>running\<close> only keeps ticks
  from overlapping; ticks are modelled one after the other.
\<close>

definition outputNewStackEvents ::
  "(string \<Rightarrow> string option \<Rightarrow> string + events_page) \<Rightarrow> action \<Rightarrow> string \<Rightarrow> int \<Rightarrow> poller \<Rightarrow>
   (cf_call list \<times> event list \<times> poller) option" where
  "outputNewStackEvents describeStackEvents act name startedAt p =
     (case getAllStackEvents describeStackEvents name startedAt of
        None \<Rightarrow> None
      | Some (reqs, Inl err) \<Rightarrow> Some (reqs, [], catch_handler act name startedAt err [] p)
      | Some (reqs, Inr allEvents) \<Rightarrow>
          (let events = filter (\<lambda>event. EventId event \<notin> displayedEvents p) allEvents in
           case processEvents act name startedAt events p of
             (p1, None) \<Rightarrow> Some (reqs, events, p1)
           | (p1, Some err) \<Rightarrow> Some (reqs, events, catch_handler act name startedAt err events p1)))"

text \<open>
  The timer of \<^verbatim>\<open>checkStack\<close>: tick \<open>i\<close> sees the event log as \<open>describeStackEvents i\<close>.
  At most \<open>fuel\<close> ticks are run; the timer is cleared once the promise is settled. The
  result lists all requests and the batch of new events of every tick.
\<close>

fun checkStack_ticks ::
  "nat \<Rightarrow> nat \<Rightarrow> (nat \<Rightarrow> string \<Rightarrow> string option \<Rightarrow> string + events_page) \<Rightarrow> action \<Rightarrow> string \<Rightarrow> int \<Rightarrow>
   cf_call list \<Rightarrow> event list list \<Rightarrow> poller \<Rightarrow> (cf_call list \<times> event list list \<times> poller) option" where
  "checkStack_ticks 0 i describeStackEvents act name startedAt reqs batches p = Some (reqs, batches, p)"
| "checkStack_ticks (Suc fuel) i describeStackEvents act name startedAt reqs batches p =
     (if outcome p \<noteq> Running then Some (reqs, batches, p)
      else
        case outputNewStackEvents (describeStackEvents i) act name startedAt p of
          None \<Rightarrow> None
        | Some (reqs1, events, p1) \<Rightarrow>
            checkStack_ticks fuel (Suc i) describeStackEvents act name startedAt
              (reqs @ reqs1) (batches @ [events]) p1)"

definition checkStack ::
  "nat \<Rightarrow> (nat \<Rightarrow> string \<Rightarrow> string option \<Rightarrow> string + events_page) \<Rightarrow> action \<Rightarrow> string \<Rightarrow> int \<Rightarrow>
   (cf_call list \<times> event list list \<times> poller) option" where
  "checkStack fuel describeStackEvents act name startedAt =
     checkStack_ticks fuel 0 describeStackEvents act name startedAt [] [] new_poller"

section \<open>Creating and updating a stack\<close>

text \<open>\<^verbatim>\<open>_.toLower\<close>, on ASCII strings.\<close>

definition lower_char :: "char \<Rightarrow> char" where
  "lower_char c =
     (case map_of (zip ''ABCDEFGHIJKLMNOPQRSTUVWXYZ'' ''abcdefghijklmnopqrstuvwxyz'') c of
        None \<Rightarrow> c
      | Some d \<Rightarrow> d)"

definition toLower :: "string \<Rightarrow> string" where
  "toLower s = map lower_char s"

text \<open>
  A plain object, as \<^verbatim>\<open>_.isPlainObject\<close> accepts it: its own enumerable properties in
  enumeration order, and whether its prototype is \<^verbatim>\<open>Object.prototype\<close> (an object literal)
  or \<^verbatim>\<open>null\<close> (made by \<^verbatim>\<open>Object.create(null)\<close>).
\<close>

record js_object =
  entries :: "(string \<times> js_prim) list"
  inherits :: bool

text \<open>The object while it is read and written: its own properties and its prototype.\<close>

record js_props =
  own :: "string \<rightharpoonup> js_prim"
  proto :: bool

definition props_of :: "js_object \<Rightarrow> js_props" where
  "props_of obj = \<lparr>own = map_of (entries obj), proto = inherits obj\<rparr>"

text \<open>The properties of \<^verbatim>\<open>Object.prototype\<close>.\<close>

definition object_prototype_names :: "string list" where
  "object_prototype_names =
     [''constructor'', ''__defineGetter__'', ''__defineSetter__'', ''hasOwnProperty'',
      ''__lookupGetter__'', ''__lookupSetter__'', ''isPrototypeOf'', ''propertyIsEnumerable'',
      ''toString'', ''valueOf'', ''__proto__'', ''toLocaleString'']"

text \<open>
  \<^verbatim>\<open>obj[k]\<close>, read: the own property, else the property inherited through the prototype
  chain, else \<^verbatim>\<open>undefined\<close>.
\<close>

definition js_get :: "js_props \<Rightarrow> string \<Rightarrow> js_value" where
  "js_get obj k =
     (case own obj k of
        Some v \<Rightarrow> Prim v
      | None \<Rightarrow> if proto obj \<and> k \<in> set object_prototype_names then Builtin k else Prim JUndefined)"

text \<open>
  \<^verbatim>\<open>obj[k] = v\<close>, for a primitive \<open>v\<close>, outside strict mode. An own property is overwritten.
  Otherwise the key \<^verbatim>\<open>__proto__\<close> reaches the setter that the object inherits: it makes
  \<^verbatim>\<open>null\<close> the prototype and ignores every other primitive. In all other cases the
  assignment creates an own property.
\<close>

definition js_set :: "js_props \<Rightarrow> string \<Rightarrow> js_prim \<Rightarrow> js_props" where
  "js_set obj k v =
     (if own obj k = None \<and> proto obj \<and> k = ''__proto__''
      then (if v = JNull then obj\<lparr>proto := False\<rparr> else obj)
      else obj\<lparr>own := (own obj)(k \<mapsto> v)\<rparr>)"

text \<open>
  The loop of \<^verbatim>\<open>normalizeParams\<close> that mutates \<^verbatim>\<open>params\<close>: for every key \<open>k\<close> of the
  object, in enumeration order, \<^verbatim>\<open>params[_.toLower(k)] = params[k]\<close>. Here \<open>k\<close> is an own key
  (the loop runs over \<^verbatim>\<open>_.keys(params)\<close> and no property is ever removed), so the value
  read is the own one.
\<close>

definition lower_key :: "js_props \<Rightarrow> string \<Rightarrow> js_props" where
  "lower_key params k =
     js_set params (toLower k) (case own params k of None \<Rightarrow> JUndefined | Some v \<Rightarrow> v)"

definition lower_keys :: "js_object \<Rightarrow> js_props" where
  "lower_keys obj = foldl lower_key (props_of obj) (map fst (entries obj))"

text \<open>
  \<^verbatim>\<open>normalizeParams\<close>. The argument \<open>params\<close> is \<open>None\<close> for a value that is falsy or not a
  plain object, and \<open>Some\<close> of a plain object. The summary of the template carries the
  declared parameters (\<open>None\<close> when \<^verbatim>\<open>data.Parameters\<close> is absent).
\<close>

definition normalizeParams ::
  "(template_object \<Rightarrow> string + declared_parameter list option) \<Rightarrow> template_object \<Rightarrow>
   js_object option \<Rightarrow> cf_call list \<times> (string + parameter list)" where
  "normalizeParams getTemplateSummary templateObject params =
     (case params of
        None \<Rightarrow> ([], Inr [])
      | Some obj \<Rightarrow>
          if length (map fst (entries obj)) \<le> 0 then ([], Inr [])
          else
            let params1 = lower_keys obj in
            ([GetTemplateSummary templateObject],
             case getTemplateSummary templateObject of
               Inl err \<Rightarrow> Inl err
             | Inr data \<Rightarrow>
                 let templateParams = (case data of None \<Rightarrow> [] | Some ps \<Rightarrow> ps) in
                 Inr (map (\<lambda>p.
                        let k = toLower (ParameterKey p);
                            v = js_get params1 k
                        in \<lparr>ParameterKey = ParameterKey p,
                            ParameterValue = js_or v (Prim (DefaultValue p))\<rparr>)
                      templateParams)))"

text \<open>\<^verbatim>\<open>convertTags\<close>: \<open>None\<close> stands for a value that is no plain object.\<close>

definition convertTags :: "(string \<times> js_prim) list option \<Rightarrow> tag list" where
  "convertTags tags =
     (case tags of None \<Rightarrow> [] | Some kvs \<Rightarrow> map (\<lambda>(key, v). \<lparr>Key = key, Value = v\<rparr>) kvs)"

text \<open>
  The closure variables of a \<^verbatim>\<open>Cfn\<close> instance that the operations read, and the answers
  of the CloudFormation client. Tick \<open>i\<close> of a poll sees the event log \<open>describeStackEvents i\<close>.
\<close>

record cfn =
  cfParams :: "js_object option"
  capabilities :: "string list"
  tags :: "(string \<times> js_prim) list option"
  async :: bool

record cloud =
  getTemplateSummary :: "template_object \<Rightarrow> string + declared_parameter list option"
  updateStack :: "cf_parms \<Rightarrow> string + unit"
  createStack :: "cf_parms \<Rightarrow> string + unit"
  describeStackEvents :: "nat \<Rightarrow> string \<Rightarrow> string option \<Rightarrow> string + events_page"

text \<open>
  \<^verbatim>\<open>processCfStack\<close>: \<open>now\<close> is the reading of \<^verbatim>\<open>Date.now()\<close> that becomes \<^verbatim>\<open>startedAt\<close>.
  The result is \<^verbatim>\<open>startedAt\<close>, the call made, and how the returned promise settles.
\<close>

definition processCfStack ::
  "cloud \<Rightarrow> int \<Rightarrow> action \<Rightarrow> cf_parms \<Rightarrow> int \<times> cf_call list \<times> (string + unit)" where
  "processCfStack cf now act cfparms =
     (let startedAt = now in
      if act = Update then
        (startedAt, [UpdateStack cfparms],
         case updateStack cf cfparms of
           Inl err \<Rightarrow> (if \<not> rx_test noUpdates err then Inl err else Inr ())
         | Inr u \<Rightarrow> Inr ())
      else (startedAt, [CreateStack cfparms], createStack cf cfparms))"

text \<open>
  \<^verbatim>\<open>processStack\<close>. \<open>template\<close> is what \<^verbatim>\<open>processTemplate\<close> settles to. The result is the
  list of client calls and the state of the returned promise after at most \<open>fuel\<close> ticks of
  the poll; \<open>None\<close> when a page fetch of the poll does not return.
\<close>

definition processStack ::
  "nat \<Rightarrow> cloud \<Rightarrow> cfn \<Rightarrow> int \<Rightarrow> action \<Rightarrow> string \<Rightarrow> string + template_object \<Rightarrow>
   (cf_call list \<times> outcome) option" where
  "processStack fuel cf self now act name template =
     (case template of
        Inl err \<Rightarrow> Some ([], Failed err)
      | Inr templateObject \<Rightarrow>
          (case normalizeParams (getTemplateSummary cf) templateObject (cfParams self) of
             (calls1, Inl err) \<Rightarrow> Some (calls1, Failed err)
           | (calls1, Inr noramlizedParams) \<Rightarrow>
               (case processCfStack cf now act
                       \<lparr>StackName = name, Capabilities = capabilities self,
                        Parameters = noramlizedParams, Tags = convertTags (tags self),
                        Template = templateObject\<rparr> of
                  (startedAt, calls2, Inl err) \<Rightarrow> Some (calls1 @ calls2, Failed err)
                | (startedAt, calls2, Inr u) \<Rightarrow>
                    if async self then Some (calls1 @ calls2, Succeeded)
                    else
                      (case checkStack fuel (describeStackEvents cf) act name startedAt of
                         None \<Rightarrow> None
                       | Some (calls3, batches, p) \<Rightarrow> Some (calls1 @ calls2 @ calls3, outcome p)))))"

section \<open>Cleanup\<close>

definition ONE_MINUTE :: int where
  "ONE_MINUTE = 60000"

text \<open>
  The options of \<^verbatim>\<open>cleanup\<close>. \<open>regex\<close> is the test of the caller's regular expression
  (taken without the global flag, so that \<^verbatim>\<open>test\<close> has no state); \<open>minutesOld\<close> and \<open>limit\<close>
  are numbers or \<^verbatim>\<open>undefined\<close>.
\<close>

record cleanup_opts =
  regex :: "string \<Rightarrow> bool"
  minutesOld :: "int option"
  dryRun :: bool
  limit :: "int option"

text \<open>
  The callback of \<^verbatim>\<open>.each\<close>, run over the stacks of one page. \<open>clock i\<close> is the reading of
  \<^verbatim>\<open>Date.now()\<close> when the \<open>i\<close>-th stack of the scan is examined.
\<close>

fun each_stack ::
  "(string \<Rightarrow> bool) \<Rightarrow> int option \<Rightarrow> (nat \<Rightarrow> int) \<Rightarrow> nat \<Rightarrow> stack_summary list \<Rightarrow>
   stack_summary list \<Rightarrow> stack_summary list" where
  "each_stack rx mins clock i [] stacks = stacks"
| "each_stack rx mins clock i (stack # rest) stacks =
     (let millisOld = clock i - (case mins of None \<Rightarrow> 0 | Some m \<Rightarrow> m) * ONE_MINUTE in
      each_stack rx mins clock (Suc i) rest
        (if rx (StackName stack) \<and> CreationTime stack < millisOld then stacks @ [stack] else stacks))"

text \<open>
  The function \<^verbatim>\<open>loop\<close> of \<^verbatim>\<open>cleanup\<close>: it lists page after page until a page comes
  without a token. The closure variables \<^verbatim>\<open>next\<close> and \<^verbatim>\<open>stacks\<close> are arguments.
\<close>

partial_function (option) cleanup_loop ::
  "(string option \<Rightarrow> string + stacks_page) \<Rightarrow> (string \<Rightarrow> bool) \<Rightarrow> int option \<Rightarrow> (nat \<Rightarrow> int) \<Rightarrow>
   string option \<Rightarrow> nat \<Rightarrow> stack_summary list \<Rightarrow> cf_call list \<Rightarrow>
   (cf_call list \<times> (string + stack_summary list)) option" where
  "cleanup_loop listStacks rx mins clock next i stacks calls =
     (case listStacks next of
        Inl err \<Rightarrow> Some (calls @ [ListStacks next], Inl err)
      | Inr data \<Rightarrow>
          (let stacks1 = each_stack rx mins clock i (StackSummaries data) stacks in
           if truthy_token (NextToken data)
           then cleanup_loop listStacks rx mins clock (NextToken data)
                  (i + length (StackSummaries data)) stacks1 (calls @ [ListStacks next])
           else Some (calls @ [ListStacks next], Inr stacks1)))"

text \<open>
  A listing that ends: read from the token \<open>next\<close>, the client serves exactly the given
  pages, each but the last with a truthy token for its successor.
\<close>

fun listing_pages ::
  "(string option \<Rightarrow> string + stacks_page) \<Rightarrow> string option \<Rightarrow> stacks_page list \<Rightarrow> bool" where
  "listing_pages listStacks next [] = False"
| "listing_pages listStacks next [data] =
     (listStacks next = Inr data \<and> \<not> truthy_token (NextToken data))"
| "listing_pages listStacks next (data # data1 # rest) =
     (listStacks next = Inr data \<and> truthy_token (NextToken data)
      \<and> listing_pages listStacks (NextToken data) (data1 # rest))"

text \<open>The stack addressed by \<^verbatim>\<open>this.delete(overrideName)\<close>: \<^verbatim>\<open>overrideName || name\<close>.\<close>

definition delete_StackName :: "string \<Rightarrow> string \<Rightarrow> string" where
  "delete_StackName overrideName name = (if overrideName \<noteq> [] then overrideName else name)"

datatype cleanup_log = WillCleanUp stack_summary | CleaningUp stack_summary

text \<open>
  \<^verbatim>\<open>cleanup\<close>: the client calls issued (the listings, then the \<^verbatim>\<open>deleteStack\<close> calls
  in the order of the \<^verbatim>\<open>_.forEach\<close>), the lines logged, and an error when a listing fails.
  \<open>name\<close> is the name of the \<^verbatim>\<open>Cfn\<close> instance.
\<close>

definition cleanup ::
  "(string option \<Rightarrow> string + stacks_page) \<Rightarrow> string \<Rightarrow> cleanup_opts \<Rightarrow> (nat \<Rightarrow> int) \<Rightarrow>
   (cf_call list \<times> cleanup_log list \<times> string option) option" where
  "cleanup listStacks name opts clock =
     (case cleanup_loop listStacks (regex opts) (minutesOld opts) clock None 0 [] [] of
        None \<Rightarrow> None
      | Some (calls, Inl err) \<Rightarrow> Some (calls, [], Some err)
      | Some (calls, Inr stacks) \<Rightarrow>
          (let sorted_stacks = sort_key CreationTime stacks;
               filteredStacks =
                 (case limit opts of
                    None \<Rightarrow> sorted_stacks
                  | Some n \<Rightarrow> if n \<noteq> 0 then take (nat n) sorted_stacks else sorted_stacks)
           in if dryRun opts
              then Some (calls, map WillCleanUp filteredStacks, None)
              else Some (calls @ map (\<lambda>stack. DeleteStack (delete_StackName (StackName stack) name))
                                    filteredStacks,
                         map CleaningUp filteredStacks, None)))"

section \<open>Scenarios\<close>

text \<open>Concrete events, event logs and clients, used to run the model.\<close>

definition ev :: "string \<Rightarrow> int \<Rightarrow> string \<Rightarrow> string \<Rightarrow> string \<Rightarrow> event" where
  "ev i t rt lid st =
     \<lparr>EventId = i, Timestamp = t, ResourceType = rt, LogicalResourceId = lid,
      ResourceStatus = st, ResourceStatusReason = None\<rparr>"

text \<open>An event log of a single page.\<close>

definition one_page :: "event list \<Rightarrow> string \<Rightarrow> string option \<Rightarrow> string + events_page" where
  "one_page es = (\<lambda>name token. Inr \<lparr>NextToken = None, StackEvents = es\<rparr>)"

text \<open>Two ticks; the second fetch returns the event of the first one again.\<close>

definition two_ticks :: "nat \<Rightarrow> string \<Rightarrow> string option \<Rightarrow> string + events_page" where
  "two_ticks i =
     (if i = 0 then one_page [ev ''e1'' 20 ''AWS::S3::Bucket'' ''Bucket'' ''CREATE_IN_PROGRESS'']
      else one_page [ev ''e2'' 25 ''AWS::S3::Bucket'' ''Bucket'' ''CREATE_COMPLETE'',
                     ev ''e1'' 20 ''AWS::S3::Bucket'' ''Bucket'' ''CREATE_IN_PROGRESS''])"

text \<open>
  An event log of three pages, newest first; with \<^verbatim>\<open>startedAt = 10\<close> the first page holds
  only later events and the second page holds an earlier one.
\<close>

definition three_pages :: "string \<Rightarrow> string option \<Rightarrow> string + events_page" where
  "three_pages name token =
     (if token = None then
        Inr \<lparr>NextToken = Some ''t2'',
             StackEvents = [ev ''e4'' 40 ''AWS::S3::Bucket'' ''Bucket'' ''UPDATE_COMPLETE'',
                            ev ''e3'' 30 ''AWS::CloudFormation::Stack'' ''demo'' ''UPDATE_IN_PROGRESS'']\<rparr>
      else if token = Some ''t2'' then
        Inr \<lparr>NextToken = Some ''t3'',
             StackEvents = [ev ''e2'' 5 ''AWS::CloudFormation::Stack'' ''demo'' ''CREATE_COMPLETE'']\<rparr>
      else if token = Some ''t3'' then
        Inr \<lparr>NextToken = None,
             StackEvents = [ev ''e1'' 1 ''AWS::CloudFormation::Stack'' ''demo'' ''CREATE_IN_PROGRESS'']\<rparr>
      else Inl ''ValidationError: invalid token'')"

text \<open>A template that declares \<^verbatim>\<open>Env\<close> (default \<^verbatim>\<open>dev\<close>) and \<^verbatim>\<open>Region\<close> (default \<^verbatim>\<open>us-east-1\<close>).\<close>

definition declared_demo :: "declared_parameter list" where
  "declared_demo =
     [\<lparr>ParameterKey = ''Env'', DefaultValue = JStr ''dev''\<rparr>,
      \<lparr>ParameterKey = ''Region'', DefaultValue = JStr ''us-east-1''\<rparr>]"

definition summary_demo :: "template_object \<Rightarrow> string + declared_parameter list option" where
  "summary_demo templateObject = Inr (Some declared_demo)"

text \<open>
  A listing of two pages: three stacks named \<^verbatim>\<open>TEST-...\<close> created at times 300, 100 and
  200, and one stack of another name; the options ask for stacks matching \<^verbatim>\<open>/^TEST-/\<close>,
  at least a minute old, and for at most two of them.
\<close>

definition listing_demo :: "string option \<Rightarrow> string + stacks_page" where
  "listing_demo token =
     (if token = None then
        Inr \<lparr>NextToken = Some ''p2'',
             StackSummaries = [\<lparr>StackName = ''TEST-c'', CreationTime = 300\<rparr>,
                               \<lparr>StackName = ''prod'', CreationTime = 50\<rparr>]\<rparr>
      else
        Inr \<lparr>NextToken = None,
             StackSummaries = [\<lparr>StackName = ''TEST-a'', CreationTime = 100\<rparr>,
                               \<lparr>StackName = ''TEST-b'', CreationTime = 200\<rparr>]\<rparr>)"

definition opts_demo :: cleanup_opts where
  "opts_demo = \<lparr>regex = (\<lambda>s. take 5 s = ''TEST-''), minutesOld = Some 1, dryRun = False,
                limit = Some 2\<rparr>"

text \<open>
  An instance without parameters and tags, and two clients that reject every update
  with the "no updates" error: the event log of the first ends with the stack's
  \<^verbatim>\<open>UPDATE_COMPLETE\<close> of an earlier operation, the second fails every fetch of events.
\<close>

definition cfn_demo :: cfn where
  "cfn_demo = \<lparr>cfParams = Some \<lparr>entries = [], inherits = True\<rparr>, capabilities = [''CAPABILITY_IAM'', ''CAPABILITY_NAMED_IAM''],
               tags = Some [], async = False\<rparr>"

definition parms_demo :: cf_parms where
  "parms_demo = \<lparr>StackName = ''demo'', Capabilities = [''CAPABILITY_IAM'', ''CAPABILITY_NAMED_IAM''],
                 Parameters = [], Tags = [], Template = TemplateBody ''{}''\<rparr>"

definition cloud_stale :: cloud where
  "cloud_stale =
     \<lparr>getTemplateSummary = summary_demo,
      updateStack = (\<lambda>cfparms. Inl ''ValidationError: No updates are to be performed.''),
      createStack = (\<lambda>cfparms. Inr ()),
      describeStackEvents =
        (\<lambda>i. one_page [ev ''e1'' 5 ''AWS::CloudFormation::Stack'' ''demo'' ''UPDATE_COMPLETE''])\<rparr>"

definition cloud_offline :: cloud where
  "cloud_offline =
     \<lparr>getTemplateSummary = summary_demo,
      updateStack = (\<lambda>cfparms. Inl ''ValidationError: No updates are to be performed.''),
      createStack = (\<lambda>cfparms. Inr ()),
      describeStackEvents = (\<lambda>i name token. Inl ''NetworkingError: socket hang up'')\<rparr>"

section \<open>Properties of the status tables\<close>

text \<open>
  C1 (as amended): the failure table consists of exactly seven statuses, the rollback
  states, the update-rollback states, \<^verbatim>\<open>UPDATE_FAILED\<close> and \<^verbatim>\<open>DELETE_FAILED\<close>; a status
  classifies as failure exactly when it is one of them. \<^verbatim>\<open>CREATE_FAILED\<close> is not among
  them.
\<close>

theorem classify_failure_table:
  "(classify s = Failure) =
     (s = ''ROLLBACK_FAILED'' \<or> s = ''ROLLBACK_IN_PROGRESS'' \<or> s = ''ROLLBACK_COMPLETE''
      \<or> s = ''UPDATE_ROLLBACK_IN_PROGRESS'' \<or> s = ''UPDATE_ROLLBACK_COMPLETE''
      \<or> s = ''UPDATE_FAILED'' \<or> s = ''DELETE_FAILED'')"
  by (simp add: classify_def lodash_includes_def failed_def success_def)

text \<open>
  C1, counterexample: \<^verbatim>\<open>CREATE_FAILED\<close> is no member of the failure table used by the
  terminal decision, and it classifies as pending, not as failure.
\<close>

theorem create_failed_not_failure:
  "\<not> lodash_includes failed ''CREATE_FAILED'' \<and> classify ''CREATE_FAILED'' = Pending"
  by (simp add: classify_def lodash_includes_def failed_def success_def)

section \<open>Properties of \<^verbatim>\<open>_processEvents\<close>\<close>

lemma forEach_display_outcome:
  "outcome (fst (forEach_display startedAt es p)) = outcome p"
  by (induction es arbitrary: p) (auto simp: Let_def)

lemma forEach_display_known:
  "known_statuses startedAt es \<Longrightarrow> snd (forEach_display startedAt es p) = None"
  by (induction es arbitrary: p) (auto simp: Let_def known_statuses_def)

lemma forEach_display_marks:
  "snd (forEach_display startedAt es p) = None \<Longrightarrow>
   displayedEvents (fst (forEach_display startedAt es p)) = displayedEvents p \<union> EventId ` set es"
  by (induction es arbitrary: p) (auto simp: Let_def split: if_splits)

lemma forEach_display_err:
  "snd (forEach_display startedAt es p) = Some err \<Longrightarrow> err = chalk_TypeError"
  by (induction es arbitrary: p) (auto simp: Let_def split: if_splits)

lemma known_statuses_sort:
  "known_statuses startedAt (sort_key Timestamp es) = known_statuses startedAt es"
  by (simp add: known_statuses_def list_all_iff)

lemma sorted_le_last:
  "sorted xs \<Longrightarrow> (x::int) \<in> set xs \<Longrightarrow> x \<le> last xs"
  by (induction xs) auto

text \<open>After the sort, the last event of a batch carries the greatest timestamp.\<close>

lemma last_sort_key_max:
  assumes "e \<in> set es"
  shows "Timestamp e \<le> Timestamp (last (sort_key Timestamp es))"
proof -
  let ?s = "sort_key Timestamp es"
  have ne: "?s \<noteq> []" using assms by (metis empty_iff set_empty set_sort)
  have "sorted (map Timestamp ?s)" by (rule sorted_sort_key)
  moreover have "Timestamp e \<in> set (map Timestamp ?s)" using assms by simp
  ultimately have "Timestamp e \<le> last (map Timestamp ?s)"
    by (rule sorted_le_last)
  thus ?thesis using ne by (simp add: last_map)
qed

text \<open>A batch whose newest event is older than \<^verbatim>\<open>startedAt\<close> logs nothing.\<close>

lemma prestart_known:
  assumes "es \<noteq> []" and "Timestamp (last (sort_key Timestamp es)) < startedAt"
  shows "known_statuses startedAt es"
  using assms last_sort_key_max[of _ es]
  by (fastforce simp: known_statuses_def list_all_iff)

lemma processEvents_empty:
  "processEvents act name startedAt [] p = (p, None)"
  by (simp add: processEvents_def)

text \<open>
  When the logging does not throw, the promise is settled by the last event of the
  sorted batch alone.
\<close>

lemma processEvents_outcome:
  assumes "known_statuses startedAt events" and "events \<noteq> []" and "outcome p = Running"
  shows "snd (processEvents act name startedAt events p) = None \<and>
    outcome (fst (processEvents act name startedAt events p)) =
     (let l = last (sort_key Timestamp events) in
      if isAuthoritative l name \<and> classify (ResourceStatus l) = Failure \<and> startedAt \<le> Timestamp l
      then Failed (fullMsg act name (ResourceStatusReason l))
      else if isAuthoritative l name \<and> classify (ResourceStatus l) \<noteq> Pending then Succeeded
      else Running)"
proof -
  let ?s = "sort_key Timestamp events"
  obtain p1 where d: "forEach_display startedAt ?s p = (p1, None)"
    using forEach_display_known[of startedAt ?s p] assms(1)
    by (metis known_statuses_sort prod.collapse)
  have o: "outcome p1 = Running"
    using forEach_display_outcome[of startedAt ?s p] d assms(3) by simp
  have ne: "?s \<noteq> []" using assms(2) by (metis length_0_conv length_sort)
  show ?thesis
    using d o ne
    by (auto simp: processEvents_def Let_def isAuthoritative_def classify_def
          do_failure_def do_success_def)
qed

lemma processEvents_displayed:
  assumes "snd (processEvents act name startedAt events p) = None"
  shows "displayedEvents (fst (processEvents act name startedAt events p)) =
           displayedEvents p \<union> EventId ` set events"
proof -
  let ?s = "sort_key Timestamp events"
  obtain p1 r where d: "forEach_display startedAt ?s p = (p1, r)"
    by (cases "forEach_display startedAt ?s p")
  have r: "r = None"
    using assms d by (auto simp: processEvents_def Let_def split: option.splits)
  have m: "displayedEvents p1 = displayedEvents p \<union> EventId ` set events"
    using forEach_display_marks[of startedAt ?s p] d r by simp
  show ?thesis using d r m
    by (auto simp: processEvents_def Let_def do_failure_def do_success_def)
qed

lemma processEvents_throw:
  assumes "processEvents act name startedAt events p = (p1, Some err)"
  shows "err = chalk_TypeError \<and> outcome p1 = outcome p"
proof -
  let ?s = "sort_key Timestamp events"
  obtain q r where d: "forEach_display startedAt ?s p = (q, r)"
    by (cases "forEach_display startedAt ?s p")
  have "r = Some err \<and> q = p1" using assms d
    by (auto simp: processEvents_def Let_def split: option.splits if_splits)
  thus ?thesis
    using forEach_display_err[of startedAt ?s p err] forEach_display_outcome[of startedAt ?s p] d
    by simp
qed

text \<open>
  C2 (as amended): when the newest event of a batch is older than \<^verbatim>\<open>startedAt\<close>,
  processing the batch never rejects the promise; it resolves the promise exactly when
  that event is the stack's own and its status is in the success table or in the failure
  table, and leaves it pending otherwise.
\<close>

theorem prestart_last_event:
  assumes "events \<noteq> []" and "Timestamp (last (sort_key Timestamp events)) < startedAt"
    and "outcome p = Running"
  shows "snd (processEvents act name startedAt events p) = None \<and>
    outcome (fst (processEvents act name startedAt events p)) =
      (if isAuthoritative (last (sort_key Timestamp events)) name
          \<and> classify (ResourceStatus (last (sort_key Timestamp events))) \<noteq> Pending
       then Succeeded else Running)"
  using processEvents_outcome[OF prestart_known[OF assms(1,2)] assms(1,3), of act name] assms(2)
  by (auto simp: Let_def)

text \<open>
  C2, witness: a stale batch that ends with the stack's \<^verbatim>\<open>UPDATE_ROLLBACK_COMPLETE\<close>
  resolves the promise.
\<close>

theorem prestart_last_event_witness:
  "outcome (fst (processEvents Update ''demo'' 10
      [ev ''e0'' 3 ''AWS::S3::Bucket'' ''Bucket'' ''UPDATE_COMPLETE'',
       ev ''e1'' 5 ''AWS::CloudFormation::Stack'' ''demo'' ''UPDATE_ROLLBACK_COMPLETE'']
      new_poller)) = Succeeded"
  using prestart_last_event[of
      "[ev ''e0'' 3 ''AWS::S3::Bucket'' ''Bucket'' ''UPDATE_COMPLETE'',
        ev ''e1'' 5 ''AWS::CloudFormation::Stack'' ''demo'' ''UPDATE_ROLLBACK_COMPLETE'']"
      10 new_poller Update "''demo''"]
  by (simp add: ev_def new_poller_def isAuthoritative_def classify_def lodash_includes_def
        failed_def)

text \<open>
  C2, counterexample: the stack's own event with the success status \<^verbatim>\<open>UPDATE_COMPLETE\<close>
  and a timestamp before \<^verbatim>\<open>startedAt\<close> does resolve the operation.
\<close>

theorem prestart_success_resolves:
  "Timestamp (ev ''e1'' 5 ''AWS::CloudFormation::Stack'' ''demo'' ''UPDATE_COMPLETE'') < 10 \<and>
   outcome (fst (processEvents Update ''demo'' 10
      [ev ''e1'' 5 ''AWS::CloudFormation::Stack'' ''demo'' ''UPDATE_COMPLETE''] new_poller))
     = Succeeded"
  by (simp add: processEvents_def ev_def new_poller_def Let_def do_success_def
        lodash_includes_def success_def failed_def)

section \<open>Properties of a tick\<close>

lemma getAll_one_page:
  "getAllStackEvents (one_page es) name startedAt = Some ([DescribeStackEvents name None], Inr es)"
  by (simp add: getAllStackEvents_def getStackEvents.simps one_page_def)

lemma tick_fetch_ok:
  assumes "getAllStackEvents dse name startedAt = Some (reqs, Inr allEvents)"
    and "events = filter (\<lambda>e. EventId e \<notin> displayedEvents p) allEvents"
    and "known_statuses startedAt events"
  shows "outputNewStackEvents dse act name startedAt p =
           Some (reqs, events, fst (processEvents act name startedAt events p))"
proof -
  have "snd (forEach_display startedAt (sort_key Timestamp events) p) = None"
    using assms(3) by (simp add: forEach_display_known known_statuses_sort)
  hence "snd (processEvents act name startedAt events p) = None"
    by (auto simp: processEvents_def Let_def split: prod.splits option.splits)
  thus ?thesis using assms(1,2)
    by (auto simp: outputNewStackEvents_def Let_def split: prod.splits option.splits)
qed

text \<open>
  C4 (as amended): on a tick whose fetch succeeds and whose new events carry statuses of
  the colour table, the promise is settled by the LAST event of the batch sorted by
  timestamp, and by no other: it is rejected when that event is the stack's own with a
  failure status and a timestamp \<open>\<ge> startedAt\<close>, resolved when it is the stack's own with a
  success status or with a failure status and a timestamp \<open>< startedAt\<close>, and stays pending
  otherwise.
\<close>

theorem tick_decides_on_last_event:
  assumes "getAllStackEvents dse name startedAt = Some (reqs, Inr allEvents)"
    and "events = filter (\<lambda>e. EventId e \<notin> displayedEvents p) allEvents"
    and "known_statuses startedAt events"
    and "events \<noteq> []"
    and "outcome p = Running"
  shows "\<exists>p'. outputNewStackEvents dse act name startedAt p = Some (reqs, events, p') \<and>
     outcome p' =
       (let l = last (sort_key Timestamp events) in
        if isAuthoritative l name \<and> classify (ResourceStatus l) = Failure \<and> startedAt \<le> Timestamp l
        then Failed (fullMsg act name (ResourceStatusReason l))
        else if isAuthoritative l name \<and> classify (ResourceStatus l) \<noteq> Pending then Succeeded
        else Running)"
  using tick_fetch_ok[OF assms(1,2,3), of act] processEvents_outcome[OF assms(3,4,5), of act name]
  by simp

text \<open>
  C4, witness: the stack's \<^verbatim>\<open>UPDATE_ROLLBACK_COMPLETE\<close> in the last position, during the
  operation, rejects the promise.
\<close>

theorem tick_decides_on_last_event_witness:
  "\<exists>p'. outputNewStackEvents
      (one_page [ev ''e2'' 21 ''AWS::CloudFormation::Stack'' ''demo'' ''UPDATE_ROLLBACK_COMPLETE'',
                 ev ''e1'' 20 ''AWS::S3::Bucket'' ''Bucket'' ''UPDATE_FAILED''])
      Update ''demo'' 10 new_poller
     = Some ([DescribeStackEvents ''demo'' None],
             [ev ''e2'' 21 ''AWS::CloudFormation::Stack'' ''demo'' ''UPDATE_ROLLBACK_COMPLETE'',
              ev ''e1'' 20 ''AWS::S3::Bucket'' ''Bucket'' ''UPDATE_FAILED''], p')
     \<and> outcome p' = Failed ''demo UPDATE Failed''"
  using tick_decides_on_last_event[of
      "one_page [ev ''e2'' 21 ''AWS::CloudFormation::Stack'' ''demo'' ''UPDATE_ROLLBACK_COMPLETE'',
                 ev ''e1'' 20 ''AWS::S3::Bucket'' ''Bucket'' ''UPDATE_FAILED'']"
      "''demo''" 10 "[DescribeStackEvents ''demo'' None]"
      "[ev ''e2'' 21 ''AWS::CloudFormation::Stack'' ''demo'' ''UPDATE_ROLLBACK_COMPLETE'',
        ev ''e1'' 20 ''AWS::S3::Bucket'' ''Bucket'' ''UPDATE_FAILED'']"
      "[ev ''e2'' 21 ''AWS::CloudFormation::Stack'' ''demo'' ''UPDATE_ROLLBACK_COMPLETE'',
        ev ''e1'' 20 ''AWS::S3::Bucket'' ''Bucket'' ''UPDATE_FAILED'']"
      new_poller Update]
  by (simp add: getAll_one_page ev_def new_poller_def known_statuses_def colorMap_def
        isAuthoritative_def classify_def lodash_includes_def failed_def fullMsg_def logPrefix_def)

text \<open>
  C4, counterexample: the stack's own \<^verbatim>\<open>UPDATE_COMPLETE\<close> (timestamp 20, after
  \<^verbatim>\<open>startedAt = 10\<close>) is in the batch, followed by a later event of a resource; the tick
  marks both as displayed and the promise stays pending.
\<close>

theorem terminal_event_not_last:
  "outputNewStackEvents
     (one_page [ev ''e2'' 21 ''AWS::S3::Bucket'' ''Bucket'' ''DELETE_COMPLETE'',
                ev ''e1'' 20 ''AWS::CloudFormation::Stack'' ''demo'' ''UPDATE_COMPLETE''])
     Update ''demo'' 10 new_poller
   = Some ([DescribeStackEvents ''demo'' None],
           [ev ''e2'' 21 ''AWS::S3::Bucket'' ''Bucket'' ''DELETE_COMPLETE'',
            ev ''e1'' 20 ''AWS::CloudFormation::Stack'' ''demo'' ''UPDATE_COMPLETE''],
           \<lparr>displayedEvents = {''e2'', ''e1''},
            logged = [ev ''e1'' 20 ''AWS::CloudFormation::Stack'' ''demo'' ''UPDATE_COMPLETE'',
                      ev ''e2'' 21 ''AWS::S3::Bucket'' ''Bucket'' ''DELETE_COMPLETE''],
            outcome = Running\<rparr>)"
  by (simp add: outputNewStackEvents_def getAll_one_page new_poller_def processEvents_def ev_def
       Let_def colorMap_def)

text \<open>
  On a tick whose fetch succeeds and whose new events carry statuses of the colour
  table, if the last event of the sorted batch is not the stack's own (its logical id
  differs from the stack name, or its type is not the stack type), the promise stays
  pending, whatever the statuses in the batch; so does it when there is no new event.
\<close>

lemma nested_event_keeps_running:
  assumes "getAllStackEvents dse name startedAt = Some (reqs, Inr allEvents)"
    and "events = filter (\<lambda>e. EventId e \<notin> displayedEvents p) allEvents"
    and "known_statuses startedAt events"
    and "events = [] \<or> \<not> isAuthoritative (last (sort_key Timestamp events)) name"
    and "outcome p = Running"
  shows "\<exists>p'. outputNewStackEvents dse act name startedAt p = Some (reqs, events, p') \<and>
     outcome p' = Running"
proof (cases "events = []")
  case True
  thus ?thesis using tick_fetch_ok[OF assms(1,2,3), of act] assms(5)
    by (simp add: processEvents_empty)
next
  case False
  thus ?thesis
    using tick_fetch_ok[OF assms(1,2,3), of act]
      processEvents_outcome[OF assms(3) False assms(5), of act name] assms(4)
    by (simp add: Let_def)
qed

text \<open>
  For instance, a nested stack \<^verbatim>\<open>Child\<close> reports \<^verbatim>\<open>CREATE_COMPLETE\<close> after the parent's
  \<^verbatim>\<open>CREATE_IN_PROGRESS\<close>; the parent's promise stays pending.
\<close>

lemma nested_event_keeps_running_example:
  "\<exists>p'. outputNewStackEvents
      (one_page [ev ''e2'' 21 ''AWS::CloudFormation::Stack'' ''Child'' ''CREATE_COMPLETE'',
                 ev ''e1'' 20 ''AWS::CloudFormation::Stack'' ''demo'' ''CREATE_IN_PROGRESS''])
      Create ''demo'' 10 new_poller
     = Some ([DescribeStackEvents ''demo'' None],
             [ev ''e2'' 21 ''AWS::CloudFormation::Stack'' ''Child'' ''CREATE_COMPLETE'',
              ev ''e1'' 20 ''AWS::CloudFormation::Stack'' ''demo'' ''CREATE_IN_PROGRESS''], p')
     \<and> outcome p' = Running"
  using nested_event_keeps_running[of
      "one_page [ev ''e2'' 21 ''AWS::CloudFormation::Stack'' ''Child'' ''CREATE_COMPLETE'',
                 ev ''e1'' 20 ''AWS::CloudFormation::Stack'' ''demo'' ''CREATE_IN_PROGRESS'']"
      "''demo''" 10 "[DescribeStackEvents ''demo'' None]"
      "[ev ''e2'' 21 ''AWS::CloudFormation::Stack'' ''Child'' ''CREATE_COMPLETE'',
        ev ''e1'' 20 ''AWS::CloudFormation::Stack'' ''demo'' ''CREATE_IN_PROGRESS'']"
      "[ev ''e2'' 21 ''AWS::CloudFormation::Stack'' ''Child'' ''CREATE_COMPLETE'',
        ev ''e1'' 20 ''AWS::CloudFormation::Stack'' ''demo'' ''CREATE_IN_PROGRESS'']"
      new_poller Create]
  by (simp add: getAll_one_page ev_def new_poller_def known_statuses_def colorMap_def
        isAuthoritative_def)

text \<open>Neither regular expression of the \<^verbatim>\<open>catch\<close> handler matches the logging error.\<close>

lemma rx_chalk:
  "\<not> rx_test notExists chalk_TypeError" "\<not> rx_test throttling chalk_TypeError"
  by (simp_all add: notExists_def throttling_def chalk_TypeError_def lit_def is_space_def)

text \<open>
  The hypothesis on the statuses cannot be dropped: \<^verbatim>\<open>DELETE_SKIPPED\<close> is no key of the
  colour table, the logging line throws, and the \<^verbatim>\<open>catch\<close> handler rejects the promise,
  whichever resource the event belongs to.
\<close>

lemma unknown_status_rejects:
  "outputNewStackEvents
     (one_page [ev ''e1'' 20 ''AWS::S3::Bucket'' ''Bucket'' ''DELETE_SKIPPED''])
     Delete ''demo'' 10 new_poller
   = Some ([DescribeStackEvents ''demo'' None],
           [ev ''e1'' 20 ''AWS::S3::Bucket'' ''Bucket'' ''DELETE_SKIPPED''],
           \<lparr>displayedEvents = {''e1''}, logged = [],
            outcome = Failed (''demo DELETE Failed: '' @ chalk_TypeError)\<rparr>)"
proof -
  have "processEvents Delete ''demo'' 10 [ev ''e1'' 20 ''AWS::S3::Bucket'' ''Bucket'' ''DELETE_SKIPPED'']
          new_poller
        = (\<lparr>displayedEvents = {''e1''}, logged = [], outcome = Running\<rparr>, Some chalk_TypeError)"
    by (simp add: processEvents_def ev_def new_poller_def Let_def colorMap_def)
  moreover have "chalk_TypeError \<noteq> []" by (simp add: chalk_TypeError_def)
  ultimately show ?thesis
    using rx_chalk
    by (simp add: outputNewStackEvents_def getAll_one_page new_poller_def catch_handler_def
          do_failure_def fullMsg_def logPrefix_def)
qed

text \<open>
  C5: the code does not keep to it. While the stack \<^verbatim>\<open>demo\<close> is deleted, its nested stack
  \<^verbatim>\<open>Child\<close> reports \<^verbatim>\<open>DELETE_SKIPPED\<close>. The last event of the batch is the one of \<^verbatim>\<open>Child\<close>,
  whose logical id differs from the stack name, and yet the promise is rejected: the
  logging line throws on the status and the \<^verbatim>\<open>catch\<close> handler calls \<^verbatim>\<open>_failure\<close>.
\<close>

theorem nested_unknown_status_rejects:
  "outputNewStackEvents
     (one_page [ev ''e2'' 21 ''AWS::CloudFormation::Stack'' ''Child'' ''DELETE_SKIPPED'',
                ev ''e1'' 20 ''AWS::CloudFormation::Stack'' ''demo'' ''DELETE_IN_PROGRESS''])
     Delete ''demo'' 10 new_poller
   = Some ([DescribeStackEvents ''demo'' None],
           [ev ''e2'' 21 ''AWS::CloudFormation::Stack'' ''Child'' ''DELETE_SKIPPED'',
            ev ''e1'' 20 ''AWS::CloudFormation::Stack'' ''demo'' ''DELETE_IN_PROGRESS''],
           \<lparr>displayedEvents = {''e2'', ''e1''},
            logged = [ev ''e1'' 20 ''AWS::CloudFormation::Stack'' ''demo'' ''DELETE_IN_PROGRESS''],
            outcome = Failed (''demo DELETE Failed: '' @ chalk_TypeError)\<rparr>)"
proof -
  have "processEvents Delete ''demo'' 10
          [ev ''e2'' 21 ''AWS::CloudFormation::Stack'' ''Child'' ''DELETE_SKIPPED'',
           ev ''e1'' 20 ''AWS::CloudFormation::Stack'' ''demo'' ''DELETE_IN_PROGRESS''] new_poller
        = (\<lparr>displayedEvents = {''e2'', ''e1''},
            logged = [ev ''e1'' 20 ''AWS::CloudFormation::Stack'' ''demo'' ''DELETE_IN_PROGRESS''],
            outcome = Running\<rparr>, Some chalk_TypeError)"
    by (simp add: processEvents_def ev_def new_poller_def Let_def colorMap_def)
  moreover have "chalk_TypeError \<noteq> []" by (simp add: chalk_TypeError_def)
  ultimately show ?thesis
    using rx_chalk
    by (simp add: outputNewStackEvents_def getAll_one_page new_poller_def catch_handler_def
          do_failure_def fullMsg_def logPrefix_def)
qed

section \<open>Properties of the polling loop\<close>

text \<open>The new events of a tick are those whose id is not marked as displayed.\<close>

lemma tick_fresh:
  assumes "outputNewStackEvents dse act name startedAt p = Some (reqs, events, p')"
  shows "EventId ` set events \<inter> displayedEvents p = {}"
  using assms
  by (auto simp: outputNewStackEvents_def Let_def split: option.splits prod.splits sum.splits)

text \<open>A tick that leaves the promise pending has marked every new event.\<close>

lemma tick_marks:
  assumes "outputNewStackEvents dse act name startedAt p = Some (reqs, events, p')"
    and "outcome p = Running" and "outcome p' = Running"
  shows "displayedEvents p' = displayedEvents p \<union> EventId ` set events"
proof (cases "getAllStackEvents dse name startedAt")
  case None
  thus ?thesis using assms by (simp add: outputNewStackEvents_def)
next
  case (Some a)
  obtain rq res where a: "a = (rq, res)" by (cases a)
  show ?thesis
  proof (cases res)
    case (Inl err)
    thus ?thesis using assms Some a
      by (auto simp: outputNewStackEvents_def catch_handler_def processEvents_empty
            do_success_def do_failure_def split: if_splits)
  next
    case (Inr allEvents)
    let ?ev = "filter (\<lambda>event. EventId event \<notin> displayedEvents p) allEvents"
    obtain p1 r where pe: "processEvents act name startedAt ?ev p = (p1, r)"
      by (cases "processEvents act name startedAt ?ev p")
    show ?thesis
    proof (cases r)
      case None
      thus ?thesis
        using assms Some a Inr pe processEvents_displayed[of act name startedAt ?ev p]
        by (auto simp: outputNewStackEvents_def Let_def)
    next
      case (Some err)
      hence "err = chalk_TypeError \<and> outcome p1 = Running"
        using processEvents_throw[of act name startedAt ?ev p p1 err] pe assms(2) by simp
      hence "outcome p' \<noteq> Running"
        using assms(1) \<open>getAllStackEvents dse name startedAt = Some a\<close> a Inr pe Some rx_chalk
        by (auto simp: outputNewStackEvents_def Let_def catch_handler_def do_failure_def)
      thus ?thesis using assms(3) by simp
    qed
  qed
qed

text \<open>
  The invariant of the loop: the batches handed out so far are pairwise disjoint in their
  event ids, and while the promise is pending all their ids are marked as displayed.
\<close>

lemma ticks_inv:
  assumes "checkStack_ticks fuel i dse act name startedAt reqs batches p = Some (reqs', batches', p')"
    and "\<forall>a b. a < b \<and> b < length batches \<longrightarrow>
           EventId ` set (batches ! a) \<inter> EventId ` set (batches ! b) = {}"
    and "outcome p = Running \<longrightarrow> (\<forall>b \<in> set batches. EventId ` set b \<subseteq> displayedEvents p)"
  shows "(\<forall>a b. a < b \<and> b < length batches' \<longrightarrow>
            EventId ` set (batches' ! a) \<inter> EventId ` set (batches' ! b) = {})
       \<and> (outcome p' = Running \<longrightarrow> (\<forall>b \<in> set batches'. EventId ` set b \<subseteq> displayedEvents p'))"
  using assms
proof (induction fuel arbitrary: i reqs batches p)
  case 0
  thus ?case by simp
next
  case (Suc fuel)
  show ?case
  proof (cases "outcome p = Running")
    case False
    thus ?thesis using Suc.prems by simp
  next
    case True
    obtain reqs1 events p1
      where t: "outputNewStackEvents (dse i) act name startedAt p = Some (reqs1, events, p1)"
      using Suc.prems(1) True by (auto split: option.splits)
    have run: "checkStack_ticks fuel (Suc i) dse act name startedAt (reqs @ reqs1)
                 (batches @ [events]) p1 = Some (reqs', batches', p')"
      using Suc.prems(1) True t by simp
    have fresh: "EventId ` set events \<inter> displayedEvents p = {}"
      by (rule tick_fresh[OF t])
    have old: "\<forall>b \<in> set batches. EventId ` set b \<subseteq> displayedEvents p"
      using Suc.prems(3) True by simp
    have d: "\<forall>a b. a < b \<and> b < length (batches @ [events]) \<longrightarrow>
               EventId ` set ((batches @ [events]) ! a) \<inter> EventId ` set ((batches @ [events]) ! b) = {}"
    proof (intro allI impI)
      fix a b assume ab: "a < b \<and> b < length (batches @ [events])"
      show "EventId ` set ((batches @ [events]) ! a) \<inter> EventId ` set ((batches @ [events]) ! b) = {}"
      proof (cases "b < length batches")
        case True
        thus ?thesis using ab Suc.prems(2) by (simp add: nth_append)
      next
        case False
        hence b: "b = length batches" using ab by simp
        have "batches ! a \<in> set batches" using ab b by simp
        hence "EventId ` set (batches ! a) \<subseteq> displayedEvents p" using old by blast
        thus ?thesis using fresh ab b by (auto simp: nth_append)
      qed
    qed
    have m: "outcome p1 = Running \<longrightarrow>
               (\<forall>b \<in> set (batches @ [events]). EventId ` set b \<subseteq> displayedEvents p1)"
    proof
      assume r: "outcome p1 = Running"
      have "displayedEvents p1 = displayedEvents p \<union> EventId ` set events"
        by (rule tick_marks[OF t True r])
      thus "\<forall>b \<in> set (batches @ [events]). EventId ` set b \<subseteq> displayedEvents p1"
        using old by (auto simp: image_subset_iff)
    qed
    show ?thesis by (rule Suc.IH[OF run d m])
  qed
qed

text \<open>
  C6: in one run of \<^verbatim>\<open>checkStack\<close>, whatever the event log returns at each tick, an event
  id handed out by the pull of one tick is in no batch handed out by a later tick; and
  while the promise is pending, every id handed out so far is in the set of displayed
  ids.
\<close>

theorem pulls_never_repeat:
  assumes "checkStack fuel dse act name startedAt = Some (reqs, batches, p)"
    and "i < j" and "j < length batches"
  shows "EventId ` set (batches ! i) \<inter> EventId ` set (batches ! j) = {}
     \<and> (outcome p = Running \<longrightarrow> (\<forall>b \<in> set batches. EventId ` set b \<subseteq> displayedEvents p))"
  using ticks_inv[of fuel 0 dse act name startedAt "[]" "[]" new_poller reqs batches p] assms
  by (simp add: checkStack_def)

lemma two_ticks_run:
  "checkStack (Suc (Suc 0)) two_ticks Create ''demo'' 10 =
     Some ([DescribeStackEvents ''demo'' None, DescribeStackEvents ''demo'' None],
           [[ev ''e1'' 20 ''AWS::S3::Bucket'' ''Bucket'' ''CREATE_IN_PROGRESS''],
            [ev ''e2'' 25 ''AWS::S3::Bucket'' ''Bucket'' ''CREATE_COMPLETE'']],
           \<lparr>displayedEvents = {''e2'', ''e1''},
            logged = [ev ''e1'' 20 ''AWS::S3::Bucket'' ''Bucket'' ''CREATE_IN_PROGRESS'',
                      ev ''e2'' 25 ''AWS::S3::Bucket'' ''Bucket'' ''CREATE_COMPLETE''],
            outcome = Running\<rparr>)"
  by (simp add: checkStack_def two_ticks_def outputNewStackEvents_def getAll_one_page
        new_poller_def processEvents_def ev_def Let_def colorMap_def)

text \<open>
  C6, witness: the second fetch returns \<^verbatim>\<open>e1\<close> again, together with the new \<^verbatim>\<open>e2\<close>; the
  second batch holds \<^verbatim>\<open>e2\<close> only.
\<close>

theorem pulls_never_repeat_witness:
  "checkStack (Suc (Suc 0)) two_ticks Create ''demo'' 10 =
     Some ([DescribeStackEvents ''demo'' None, DescribeStackEvents ''demo'' None],
           [[ev ''e1'' 20 ''AWS::S3::Bucket'' ''Bucket'' ''CREATE_IN_PROGRESS''],
            [ev ''e2'' 25 ''AWS::S3::Bucket'' ''Bucket'' ''CREATE_COMPLETE'']],
           \<lparr>displayedEvents = {''e2'', ''e1''},
            logged = [ev ''e1'' 20 ''AWS::S3::Bucket'' ''Bucket'' ''CREATE_IN_PROGRESS'',
                      ev ''e2'' 25 ''AWS::S3::Bucket'' ''Bucket'' ''CREATE_COMPLETE''],
            outcome = Running\<rparr>)
   \<and> EventId ` set [ev ''e1'' 20 ''AWS::S3::Bucket'' ''Bucket'' ''CREATE_IN_PROGRESS'']
       \<inter> EventId ` set [ev ''e2'' 25 ''AWS::S3::Bucket'' ''Bucket'' ''CREATE_COMPLETE''] = {}"
  using pulls_never_repeat[OF two_ticks_run, of 0 1] two_ticks_run
  by simp

section \<open>Properties of the page fetch\<close>

text \<open>Every fetch that returns has made its first request.\<close>

lemma getStackEvents_trace_aux:
  assumes "getStackEvents dse name startedAt next allEvents reqs = Some y"
  shows "\<exists>rest. fst y = reqs @ DescribeStackEvents name next # rest"
proof (rule getStackEvents.raw_induct[OF _ assms])
  fix f dse name startedAt nxt allEvents reqs y
  assume IH: "\<And>dse name startedAt nxt allEvents reqs y.
           f dse name startedAt nxt allEvents reqs = Some y \<Longrightarrow>
           \<exists>rest. fst y = reqs @ DescribeStackEvents name nxt # rest"
    and body: "(case dse name nxt of
        Inl err \<Rightarrow> Some (reqs @ [DescribeStackEvents name nxt], Inl err)
      | Inr data \<Rightarrow>
          if truthy_token (NextToken data) \<and> \<not> allRelevantEventsLoaded startedAt (StackEvents data)
          then f dse name startedAt (NextToken data) (allEvents @ StackEvents data)
                 (reqs @ [DescribeStackEvents name nxt])
          else Some (reqs @ [DescribeStackEvents name nxt], Inr (allEvents @ StackEvents data)))
        = Some y"
  show "\<exists>rest. fst y = reqs @ DescribeStackEvents name nxt # rest"
  proof (cases "dse name nxt")
    case (Inl err)
    thus ?thesis using body by auto
  next
    case (Inr data)
    show ?thesis
    proof (cases "truthy_token (NextToken data)
                   \<and> \<not> allRelevantEventsLoaded startedAt (StackEvents data)")
      case True
      hence "f dse name startedAt (NextToken data) (allEvents @ StackEvents data)
               (reqs @ [DescribeStackEvents name nxt]) = Some y"
        using body Inr by simp
      from IH[OF this] show ?thesis by auto
    next
      case False
      thus ?thesis using body Inr by auto
    qed
  qed
qed

lemma getStackEvents_trace:
  "getStackEvents dse name startedAt next allEvents reqs = Some (tr, res) \<Longrightarrow>
   \<exists>rest. tr = reqs @ DescribeStackEvents name next # rest"
  using getStackEvents_trace_aux[of dse name startedAt "next" allEvents reqs "(tr, res)"] by simp

lemma getStackEvents_step:
  assumes "dse name next = Inr data"
  shows "getStackEvents dse name startedAt next allEvents reqs =
     (if truthy_token (NextToken data) \<and> \<not> list_ex (\<lambda>e. Timestamp e < startedAt) (StackEvents data)
      then getStackEvents dse name startedAt (NextToken data) (allEvents @ StackEvents data)
             (reqs @ [DescribeStackEvents name next])
      else Some (reqs @ [DescribeStackEvents name next], Inr (allEvents @ StackEvents data)))"
  using assms by (subst getStackEvents.simps) (simp add: allRelevantEventsLoaded_def)

lemma getStackEvents_error:
  assumes "dse name next = Inl err"
  shows "getStackEvents dse name startedAt next allEvents reqs =
           Some (reqs @ [DescribeStackEvents name next], Inl err)"
  using assms by (subst getStackEvents.simps) simp

text \<open>
  C7: when the client answers the request for a page with \<open>data\<close>, the fetch requests
  the next page, with the token of \<open>data\<close>, if and only if that token is truthy and no
  event of \<open>data\<close> is older than \<^verbatim>\<open>startedAt\<close>. In that case the request is made whatever
  the client answers to it: an error ends the fetch, a page either ends it or makes it go
  on, and in each case the request is among the requests made. Otherwise the request
  answered with \<open>data\<close> is the last one and the fetch returns the events accumulated.
\<close>

theorem next_page_requested_iff:
  assumes "dse name next = Inr data"
  shows "getStackEvents dse name startedAt next allEvents reqs =
     (if truthy_token (NextToken data) \<and> \<not> list_ex (\<lambda>e. Timestamp e < startedAt) (StackEvents data)
      then
        (case dse name (NextToken data) of
           Inl err \<Rightarrow>
             Some (reqs @ [DescribeStackEvents name next, DescribeStackEvents name (NextToken data)],
                   Inl err)
         | Inr data2 \<Rightarrow>
             if truthy_token (NextToken data2)
                \<and> \<not> list_ex (\<lambda>e. Timestamp e < startedAt) (StackEvents data2)
             then getStackEvents dse name startedAt (NextToken data2)
                    (allEvents @ StackEvents data @ StackEvents data2)
                    (reqs @ [DescribeStackEvents name next, DescribeStackEvents name (NextToken data)])
             else Some (reqs @ [DescribeStackEvents name next,
                                DescribeStackEvents name (NextToken data)],
                        Inr (allEvents @ StackEvents data @ StackEvents data2)))
      else Some (reqs @ [DescribeStackEvents name next], Inr (allEvents @ StackEvents data)))
    \<and> (\<forall>tr res. getStackEvents dse name startedAt next allEvents reqs = Some (tr, res) \<longrightarrow>
          (truthy_token (NextToken data)
             \<and> \<not> list_ex (\<lambda>e. Timestamp e < startedAt) (StackEvents data)) =
          (\<exists>rest. tr = reqs @ [DescribeStackEvents name next,
                                DescribeStackEvents name (NextToken data)] @ rest))"
proof (cases "truthy_token (NextToken data)
               \<and> \<not> list_ex (\<lambda>e. Timestamp e < startedAt) (StackEvents data)")
  case True
  have s1: "getStackEvents dse name startedAt next allEvents reqs =
      getStackEvents dse name startedAt (NextToken data) (allEvents @ StackEvents data)
             (reqs @ [DescribeStackEvents name next])"
    using getStackEvents_step[of dse name "next" data startedAt allEvents reqs] assms True by simp
  have a: "getStackEvents dse name startedAt (NextToken data) (allEvents @ StackEvents data)
             (reqs @ [DescribeStackEvents name next]) =
        (case dse name (NextToken data) of
           Inl err \<Rightarrow>
             Some (reqs @ [DescribeStackEvents name next, DescribeStackEvents name (NextToken data)],
                   Inl err)
         | Inr data2 \<Rightarrow>
             if truthy_token (NextToken data2)
                \<and> \<not> list_ex (\<lambda>e. Timestamp e < startedAt) (StackEvents data2)
             then getStackEvents dse name startedAt (NextToken data2)
                    (allEvents @ StackEvents data @ StackEvents data2)
                    (reqs @ [DescribeStackEvents name next, DescribeStackEvents name (NextToken data)])
             else Some (reqs @ [DescribeStackEvents name next,
                                DescribeStackEvents name (NextToken data)],
                        Inr (allEvents @ StackEvents data @ StackEvents data2)))"
  proof (cases "dse name (NextToken data)")
    case (Inl err)
    thus ?thesis
      using getStackEvents_error[of dse name "NextToken data" err startedAt
              "allEvents @ StackEvents data" "reqs @ [DescribeStackEvents name next]"]
      by simp
  next
    case (Inr data2)
    thus ?thesis
      using getStackEvents_step[of dse name "NextToken data" data2 startedAt
              "allEvents @ StackEvents data" "reqs @ [DescribeStackEvents name next]"]
      by simp
  qed
  have b: "\<forall>tr res. getStackEvents dse name startedAt next allEvents reqs = Some (tr, res) \<longrightarrow>
          (\<exists>rest. tr = reqs @ [DescribeStackEvents name next,
                                DescribeStackEvents name (NextToken data)] @ rest)"
    using s1 getStackEvents_trace[of dse name startedAt "NextToken data"
            "allEvents @ StackEvents data" "reqs @ [DescribeStackEvents name next]"]
    by auto
  show ?thesis using True s1 a b by simp
next
  case False
  thus ?thesis
    using getStackEvents_step[of dse name "next" data startedAt allEvents reqs] assms by auto
qed

text \<open>
  C7, witness: with \<^verbatim>\<open>startedAt = 10\<close> the fetch over the log of three pages requests the
  first page and the page of token \<^verbatim>\<open>t2\<close>, which holds an event of time 5, and returns: the
  page of token \<^verbatim>\<open>t3\<close> is never requested although the second page came with that token.
\<close>

theorem next_page_requested_iff_witness:
  "getAllStackEvents three_pages ''demo'' 10 =
     Some ([DescribeStackEvents ''demo'' None, DescribeStackEvents ''demo'' (Some ''t2'')],
           Inr [ev ''e4'' 40 ''AWS::S3::Bucket'' ''Bucket'' ''UPDATE_COMPLETE'',
                ev ''e3'' 30 ''AWS::CloudFormation::Stack'' ''demo'' ''UPDATE_IN_PROGRESS'',
                ev ''e2'' 5 ''AWS::CloudFormation::Stack'' ''demo'' ''CREATE_COMPLETE''])
   \<and> DescribeStackEvents ''demo'' (Some ''t3'')
        \<notin> set [DescribeStackEvents ''demo'' None, DescribeStackEvents ''demo'' (Some ''t2'')]"
  using next_page_requested_iff[of three_pages "''demo''" None
          "\<lparr>NextToken = Some ''t2'',
             StackEvents = [ev ''e4'' 40 ''AWS::S3::Bucket'' ''Bucket'' ''UPDATE_COMPLETE'',
                            ev ''e3'' 30 ''AWS::CloudFormation::Stack'' ''demo'' ''UPDATE_IN_PROGRESS'']\<rparr>"
          10 "[]" "[]"]
  by (simp add: getAllStackEvents_def three_pages_def ev_def)

section \<open>Properties of \<^verbatim>\<open>normalizeParams\<close>\<close>




















text \<open>
  The condition on the declared keys cannot be dropped: for the declared key
  \<^verbatim>\<open>Constructor\<close>, which the caller does not supply, \<^verbatim>\<open>params['constructor']\<close> is the
  function that the object inherits, and the entry carries it instead of the default.
\<close>

lemma inherited_member_read:
  "normalizeParams (\<lambda>t. Inr (Some [\<lparr>ParameterKey = ''Constructor'', DefaultValue = JStr ''dev''\<rparr>]))
     (TemplateBody ''{}'') (Some \<lparr>entries = [(''Other'', JStr ''x'')], inherits = True\<rparr>) =
     ([GetTemplateSummary (TemplateBody ''{}'')],
      Inr [\<lparr>ParameterKey = ''Constructor'', ParameterValue = Builtin ''constructor''\<rparr>])"
  by (simp add: normalizeParams_def lower_keys_def lower_key_def
        props_of_def js_set_def js_get_def js_or_def toLower_def lower_char_def Let_def
        object_prototype_names_def)



section \<open>Properties of \<^verbatim>\<open>cleanup\<close>\<close>

lemma each_stack_append:
  "each_stack rx mins clock i (xs @ ys) acc =
     each_stack rx mins clock (i + length xs) ys (each_stack rx mins clock i xs acc)"
  by (induction xs arbitrary: i acc) (simp_all add: Let_def)

text \<open>
  The scan keeps, in the order of the listing, exactly the stacks whose name matches the
  pattern and whose creation time is older than the threshold at the reading of the
  clock taken for them.
\<close>

lemma each_stack_filter:
  "each_stack rx mins clock i ss acc =
     acc @ map snd (filter (\<lambda>(j, s). rx (StackName s) \<and>
                CreationTime s < clock j - (case mins of None \<Rightarrow> 0 | Some m \<Rightarrow> m) * ONE_MINUTE)
              (zip [i..<i + length ss] ss))"
proof (induction ss arbitrary: i acc)
  case Nil
  show ?case by simp
next
  case (Cons s ss)
  have u: "[i..<i + length (s # ss)] = i # [Suc i..<Suc i + length ss]"
    using upt_conv_Cons[of i "i + length (s # ss)"] by simp
  show ?case
    unfolding u using Cons[of "Suc i"] by (simp add: Let_def)
qed

text \<open>Over a listing that ends, the scan returns after one request per page.\<close>

lemma cleanup_loop_pages:
  "listing_pages listStacks next pages \<Longrightarrow>
   cleanup_loop listStacks rx mins clock next i stacks calls =
     Some (calls @ map ListStacks (next # map NextToken (butlast pages)),
           Inr (each_stack rx mins clock i (concat (map StackSummaries pages)) stacks))"
proof (induction listStacks "next" pages arbitrary: i stacks calls rule: listing_pages.induct)
  case (1 listStacks nxt)
  thus ?case by simp
next
  case (2 listStacks nxt data)
  thus ?case by (subst cleanup_loop.simps) (simp add: Let_def)
next
  case (3 listStacks nxt data data1 rest)
  have a: "listStacks nxt = Inr data" "truthy_token (NextToken data)"
    and b: "listing_pages listStacks (NextToken data) (data1 # rest)"
    using "3.prems" by simp_all
  have "cleanup_loop listStacks rx mins clock nxt i stacks calls =
        cleanup_loop listStacks rx mins clock (NextToken data) (i + length (StackSummaries data))
          (each_stack rx mins clock i (StackSummaries data) stacks) (calls @ [ListStacks nxt])"
    using a by (subst cleanup_loop.simps) (simp add: Let_def)
  also have "\<dots> = Some ((calls @ [ListStacks nxt]) @
                      map ListStacks (NextToken data # map NextToken (butlast (data1 # rest))),
           Inr (each_stack rx mins clock (i + length (StackSummaries data))
                  (concat (map StackSummaries (data1 # rest)))
                  (each_stack rx mins clock i (StackSummaries data) stacks)))"
    by (rule "3.IH"[OF b])
  finally show ?case by (simp add: each_stack_append)
qed

lemma sorted_take_drop:
  "sorted (map f xs) \<Longrightarrow> d \<in> set (take n xs) \<Longrightarrow> r \<in> set (drop n xs) \<Longrightarrow> f d \<le> f r"
proof -
  assume s: "sorted (map f xs)" and d: "d \<in> set (take n xs)" and r: "r \<in> set (drop n xs)"
  have "sorted (map f (take n xs @ drop n xs))" using s by simp
  thus ?thesis using d r by (auto simp only: map_append sorted_append set_map)
qed

text \<open>
  C9 (as amended): for every listing that ends, and every limit that is a number
  other than 0, \<^verbatim>\<open>cleanup\<close> returns. The survivors are exactly the listed stacks whose name
  matches the pattern and whose creation time is older than the age threshold; they are
  sorted ascending by creation time, and exactly the first \<^verbatim>\<open>limit\<close> of them (none for a
  negative limit) are processed: each receives a \<^verbatim>\<open>deleteStack\<close> call (in a dry run each
  is reported and none is deleted), and none of them was created later than a survivor
  that is left out.
\<close>

theorem cleanup_takes_oldest:
  assumes "listing_pages listStacks None pages"
    and "limit opts = Some n" and "n \<noteq> 0"
    and "survivors =
           map snd (filter (\<lambda>(j, s). regex opts (StackName s) \<and>
                       CreationTime s <
                         clock j - (case minutesOld opts of None \<Rightarrow> 0 | Some m \<Rightarrow> m) * ONE_MINUTE)
                     (zip [0..<length (concat (map StackSummaries pages))]
                          (concat (map StackSummaries pages))))"
  shows "cleanup listStacks name opts clock =
      Some (map ListStacks (None # map NextToken (butlast pages)) @
              (if dryRun opts then []
               else map (\<lambda>s. DeleteStack (delete_StackName (StackName s) name))
                      (take (nat n) (sort_key CreationTime survivors))),
            map (if dryRun opts then WillCleanUp else CleaningUp)
                (take (nat n) (sort_key CreationTime survivors)),
            None)
    \<and> (\<forall>d \<in> set (take (nat n) (sort_key CreationTime survivors)).
        \<forall>r \<in> set (drop (nat n) (sort_key CreationTime survivors)). CreationTime d \<le> CreationTime r)"
proof -
  have scan: "cleanup_loop listStacks (regex opts) (minutesOld opts) clock None 0 [] [] =
      Some (map ListStacks (None # map NextToken (butlast pages)), Inr survivors)"
    using cleanup_loop_pages[OF assms(1), of "regex opts" "minutesOld opts" clock 0 "[]" "[]"]
    by (simp add: each_stack_filter assms(4))
  have a: "cleanup listStacks name opts clock =
      Some (map ListStacks (None # map NextToken (butlast pages)) @
              (if dryRun opts then []
               else map (\<lambda>s. DeleteStack (delete_StackName (StackName s) name))
                      (take (nat n) (sort_key CreationTime survivors))),
            map (if dryRun opts then WillCleanUp else CleaningUp)
                (take (nat n) (sort_key CreationTime survivors)),
            None)"
    using scan assms(2,3) by (simp add: cleanup_def Let_def)
  have "sorted (map CreationTime (sort_key CreationTime survivors))" by (rule sorted_sort_key)
  hence c: "\<forall>d \<in> set (take (nat n) (sort_key CreationTime survivors)).
        \<forall>r \<in> set (drop (nat n) (sort_key CreationTime survivors)). CreationTime d \<le> CreationTime r"
    using sorted_take_drop[of CreationTime "sort_key CreationTime survivors"] by blast
  show ?thesis using a c by blast
qed

text \<open>
  C9, witness: the survivors were created at \<open>T1 = 100\<close>, \<open>T2 = 200\<close> and \<open>T3 = 300\<close>; with
  \<^verbatim>\<open>limit = 2\<close> the stacks of \<open>T1\<close> and \<open>T2\<close> are deleted, the stack of \<open>T3\<close> is not.
\<close>

theorem cleanup_takes_oldest_witness:
  "cleanup listing_demo ''cfn'' opts_demo (\<lambda>i. 1000000) =
     Some ([ListStacks None, ListStacks (Some ''p2''), DeleteStack ''TEST-a'', DeleteStack ''TEST-b''],
           [CleaningUp \<lparr>StackName = ''TEST-a'', CreationTime = 100\<rparr>,
            CleaningUp \<lparr>StackName = ''TEST-b'', CreationTime = 200\<rparr>],
           None)"
  using cleanup_takes_oldest[of listing_demo
          "[\<lparr>NextToken = Some ''p2'',
             StackSummaries = [\<lparr>StackName = ''TEST-c'', CreationTime = 300\<rparr>,
                               \<lparr>StackName = ''prod'', CreationTime = 50\<rparr>]\<rparr>,
            \<lparr>NextToken = None,
             StackSummaries = [\<lparr>StackName = ''TEST-a'', CreationTime = 100\<rparr>,
                               \<lparr>StackName = ''TEST-b'', CreationTime = 200\<rparr>]\<rparr>]"
          opts_demo 2
          "[\<lparr>StackName = ''TEST-c'', CreationTime = 300\<rparr>,
            \<lparr>StackName = ''TEST-a'', CreationTime = 100\<rparr>,
            \<lparr>StackName = ''TEST-b'', CreationTime = 200\<rparr>]"
          "\<lambda>i. 1000000" "''cfn''"]
  by (simp add: listing_demo_def opts_demo_def delete_StackName_def ONE_MINUTE_def upt_rec)

text \<open>
  C9, counterexample: with the limit set to 0, \<^verbatim>\<open>if (limit)\<close> applies no cap, and all
  three survivors receive a \<^verbatim>\<open>deleteStack\<close> call.
\<close>

theorem limit_zero_deletes_all:
  "limit (opts_demo\<lparr>limit := Some 0\<rparr>) = Some 0 \<and>
   cleanup listing_demo ''cfn'' (opts_demo\<lparr>limit := Some 0\<rparr>) (\<lambda>i. 1000000) =
     Some ([ListStacks None, ListStacks (Some ''p2''),
            DeleteStack ''TEST-a'', DeleteStack ''TEST-b'', DeleteStack ''TEST-c''],
           [CleaningUp \<lparr>StackName = ''TEST-a'', CreationTime = 100\<rparr>,
            CleaningUp \<lparr>StackName = ''TEST-b'', CreationTime = 200\<rparr>,
            CleaningUp \<lparr>StackName = ''TEST-c'', CreationTime = 300\<rparr>],
           None)"
  by (simp add: cleanup_def cleanup_loop.simps listing_demo_def opts_demo_def
        delete_StackName_def ONE_MINUTE_def Let_def)

section \<open>Properties of \<^verbatim>\<open>processStack\<close>\<close>

lemma normalizeParams_calls:
  "c \<in> set (fst (normalizeParams gts templateObject params)) \<Longrightarrow> c = GetTemplateSummary templateObject"
  by (auto simp: normalizeParams_def Let_def split: option.splits if_splits)

text \<open>
  C3 (as amended): when the update call rejects with an error that matches
  \<^verbatim>\<open>/No updates are to be performed/\<close>, the error is not propagated. Up to and including
  the update call no events are requested. In asynchronous mode the operation then
  resolves at once, with no polling. In synchronous mode \<^verbatim>\<open>checkStack\<close> is started all the
  same, with \<^verbatim>\<open>startedAt\<close> the time of the update call, and the operation settles as the
  poll does.
\<close>

theorem no_updates_swallowed:
  assumes "normalizeParams (getTemplateSummary cf) templateObject (cfParams self) = (calls1, Inr ps)"
    and "cfparms = \<lparr>StackName = name, Capabilities = capabilities self, Parameters = ps,
                   Tags = convertTags (tags self), Template = templateObject\<rparr>"
    and "updateStack cf cfparms = Inl err" and "rx_test noUpdates err"
  shows "processStack fuel cf self now Update name (Inr templateObject) =
     (if async self then Some (calls1 @ [UpdateStack cfparms], Succeeded)
      else
        (case checkStack fuel (describeStackEvents cf) Update name now of
           None \<Rightarrow> None
         | Some (calls3, batches, p) \<Rightarrow> Some (calls1 @ [UpdateStack cfparms] @ calls3, outcome p)))
    \<and> DescribeStackEvents n t \<notin> set (calls1 @ [UpdateStack cfparms])"
proof -
  have "DescribeStackEvents n t \<notin> set calls1"
    using normalizeParams_calls[of "DescribeStackEvents n t" "getTemplateSummary cf"
            templateObject "cfParams self"] assms(1) by auto
  thus ?thesis using assms(1,3,4) unfolding assms(2)
    by (simp add: processStack_def processCfStack_def Let_def)
qed

lemma stale_poll:
  "checkStack (Suc 0) (describeStackEvents cloud_stale) Update ''demo'' 10 =
     Some ([DescribeStackEvents ''demo'' None],
           [[ev ''e1'' 5 ''AWS::CloudFormation::Stack'' ''demo'' ''UPDATE_COMPLETE'']],
           \<lparr>displayedEvents = {''e1''}, logged = [], outcome = Succeeded\<rparr>)"
  by (simp add: checkStack_def cloud_stale_def outputNewStackEvents_def getAll_one_page
        new_poller_def processEvents_def ev_def Let_def do_success_def lodash_includes_def
        failed_def success_def)

text \<open>
  C3, witness: in synchronous mode the poll of the first client finds the stack's earlier
  \<^verbatim>\<open>UPDATE_COMPLETE\<close> and resolves after one fetch; in asynchronous mode nothing is fetched.
\<close>

theorem no_updates_swallowed_witness:
  "processStack (Suc 0) cloud_stale cfn_demo 10 Update ''demo'' (Inr (TemplateBody ''{}'')) =
     Some ([UpdateStack parms_demo, DescribeStackEvents ''demo'' None], Succeeded)
   \<and> processStack (Suc 0) cloud_stale (cfn_demo\<lparr>async := True\<rparr>) 10 Update ''demo''
        (Inr (TemplateBody ''{}'')) = Some ([UpdateStack parms_demo], Succeeded)"
  using no_updates_swallowed[of cloud_stale "TemplateBody ''{}''" cfn_demo "[]" "[]" parms_demo
          "''demo''" "''ValidationError: No updates are to be performed.''" "Suc 0" 10]
        no_updates_swallowed[of cloud_stale "TemplateBody ''{}''" "cfn_demo\<lparr>async := True\<rparr>" "[]" "[]"
          parms_demo "''demo''" "''ValidationError: No updates are to be performed.''" "Suc 0" 10]
        stale_poll
  by (simp add: normalizeParams_def cfn_demo_def parms_demo_def convertTags_def cloud_stale_def
        noUpdates_def lit_def)

lemma offline_poll:
  "checkStack (Suc 0) (describeStackEvents cloud_offline) Update ''demo'' 10 =
     Some ([DescribeStackEvents ''demo'' None], [[]],
           \<lparr>displayedEvents = {}, logged = [],
            outcome = Failed ''demo UPDATE Failed: NetworkingError: socket hang up''\<rparr>)"
  by (simp add: checkStack_def cloud_offline_def outputNewStackEvents_def getAllStackEvents_def
        getStackEvents.simps catch_handler_def notExists_def throttling_def lit_def
        do_failure_def fullMsg_def logPrefix_def new_poller_def)

text \<open>
  C3, counterexample: in synchronous mode, after the update call was rejected with the
  "no updates" error, the events of the stack are requested; the request fails and the
  operation is rejected.
\<close>

theorem no_updates_still_polls:
  "updateStack cloud_offline parms_demo = Inl ''ValidationError: No updates are to be performed.''
   \<and> processStack (Suc 0) cloud_offline cfn_demo 10 Update ''demo'' (Inr (TemplateBody ''{}'')) =
       Some ([UpdateStack parms_demo, DescribeStackEvents ''demo'' None],
             Failed ''demo UPDATE Failed: NetworkingError: socket hang up'')"
  using offline_poll
  by (simp add: processStack_def processCfStack_def normalizeParams_def cfn_demo_def parms_demo_def
        convertTags_def noUpdates_def lit_def cloud_offline_def)

end
